theory Spec2Isabelle
  imports Complex_Main "HOL-Library.List_Lexorder" "HOL-Library.Multiset" "HOL-Library.Log_Nat"
begin

section \<open>Electricity board management system: the store and its operations\<close>

text \<open>
  A shallow embedding of \<^verbatim>\<open>bot.py\<close>. The SQLite database file is a record of three
  tables, each a list of rows in rowid order together with the counter that
  \<^verbatim>\<open>AUTOINCREMENT\<close> keeps. Every menu operation is a function from the store and
  the operator's entries to the lines it reports and the store it leaves behind.

  Modelling decisions, all of them about the libraries and not about the program:
  \<^item> a Python \<^verbatim>\<open>str\<close> is the list of its Unicode code points; SQLite orders and
    compares \<^verbatim>\<open>TEXT\<close> by the bytes of its UTF-8 encoding, which is the
    lexicographic order of the code points;
  \<^item> a \<^verbatim>\<open>REAL\<close> is a rational number; differences, products and sums are exact,
    so the model covers the finite values on which these floating-point operations
    do not round, among them every figure that the specification names, and the
    theorems about sums say so in their hypotheses; the division of the mean is
    rounded to the nearest double; the infinities and NaN, which \<^verbatim>\<open>float\<close> accepts
    from the operator, are outside the model;
  \<^item> an integer is unbounded, as in Python; an integer that Python hands to SQLite
    as a parameter has to fit SQLite's signed 64-bit \<^verbatim>\<open>INTEGER\<close>, and the
    \<^verbatim>\<open>sqlite3\<close> module raises \<^verbatim>\<open>OverflowError\<close> when it does not;
  \<^item> \<^verbatim>\<open>ORDER BY\<close> and \<^verbatim>\<open>sort_values\<close> keep rows with equal keys in the order
    they had (SQLite's sorter, and the insertion sort numpy uses on short arrays);
    no theorem about \<^verbatim>\<open>sort_values\<close> rests on this.
\<close>

subsection \<open>Strings\<close>

type_synonym pystr = "nat list"

definition ascii :: "string \<Rightarrow> pystr" where
  "ascii s = map of_char s"

text \<open>\<^verbatim>\<open>str.strip()\<close> removes the characters for which \<^verbatim>\<open>str.isspace()\<close> holds.\<close>

definition isspace :: "nat \<Rightarrow> bool" where
  "isspace c \<longleftrightarrow>
     (9 \<le> c \<and> c \<le> 13) \<or> (28 \<le> c \<and> c \<le> 32) \<or> c = 133 \<or> c = 160 \<or> c = 5760 \<or>
     (8192 \<le> c \<and> c \<le> 8202) \<or> c = 8232 \<or> c = 8233 \<or> c = 8239 \<or> c = 8287 \<or> c = 12288"

definition strip :: "pystr \<Rightarrow> pystr" where
  "strip s = rev (dropWhile isspace (rev (dropWhile isspace s)))"

text \<open>
  \<^verbatim>\<open>\d\<close> in a \<^verbatim>\<open>str\<close> pattern matches every Unicode decimal digit (category Nd), not
  only \<^verbatim>\<open>0\<close> to \<^verbatim>\<open>9\<close>. The table is that of Unicode 14.0 (CPython 3.11): blocks of
  ten digits, given by their first code point, and the mathematical digits
  U+1D7CE to U+1D7FF.
\<close>

definition ascii_digit :: "nat \<Rightarrow> bool" where
  "ascii_digit c \<longleftrightarrow> 48 \<le> c \<and> c \<le> 57"

definition decimal_blocks :: "nat list" where
  "decimal_blocks =
     [48, 1632, 1776, 1984, 2406, 2534, 2662, 2790, 2918, 3046, 3174, 3302, 3430, 3558,
      3664, 3792, 3872, 4160, 4240, 6112, 6160, 6470, 6608, 6784, 6800, 6992, 7088, 7232,
      7248, 42528, 43216, 43264, 43472, 43504, 43600, 44016, 65296, 66720, 68912, 69734,
      69872, 69942, 70096, 70384, 70736, 70864, 71248, 71360, 71472, 71904, 72016, 72784,
      73040, 73120, 92768, 92864, 93008, 123200, 123632, 125264, 130032]"

definition re_digit :: "nat \<Rightarrow> bool" where
  "re_digit c \<longleftrightarrow>
     list_ex (\<lambda>b. b \<le> c \<and> c < b + 10) decimal_blocks \<or> (120782 \<le> c \<and> c \<le> 120831)"

text \<open>\<^verbatim>\<open>re.fullmatch(r"\d{10}", phone) is not None\<close>\<close>

definition validate_phone :: "pystr \<Rightarrow> bool" where
  "validate_phone phone \<longleftrightarrow> length phone = 10 \<and> list_all re_digit phone"

text \<open>
  \<^verbatim>\<open>confirm.lower() == 'y'\<close>: the only strings whose lower case is \<^verbatim>\<open>y\<close> are
  \<^verbatim>\<open>y\<close> and \<^verbatim>\<open>Y\<close>.
\<close>

definition lower_is_y :: "pystr \<Rightarrow> bool" where
  "lower_is_y confirm \<longleftrightarrow> confirm = [121] \<or> confirm = [89]"

subsection \<open>Numbers\<close>

text \<open>
  \<^verbatim>\<open>np.round(x, 2)\<close> scales by 100, rounds to the nearest integer with halves going
  to the even neighbour, and scales back.
\<close>

definition rint :: "rat \<Rightarrow> int" where
  "rint x = (let f = \<lfloor>x\<rfloor>; d = x - of_int f in
     if d < 1 / 2 then f else if 1 / 2 < d then f + 1 else if even f then f else f + 1)"

definition np_round2 :: "rat \<Rightarrow> rat" where
  "np_round2 x = of_int (rint (x * 100)) / 100"

text \<open>
  The double nearest to a number in the range of the normal doubles, halves going to
  the even significand: the number is scaled to a significand of 53 bits, rounded
  and scaled back. \<open>ilog2\<close> is the exponent, the integer part of the binary
  logarithm of the absolute value.
\<close>

definition ilog2 :: "rat \<Rightarrow> int" where
  "ilog2 x =
     (let (p, q) = quotient_of \<bar>x\<bar>;
          d = int (floorlog 2 (nat p)) - int (floorlog 2 (nat q))
      in if 2 powi d \<le> \<bar>x\<bar> then d else d - 1)"

definition fl64 :: "rat \<Rightarrow> rat" where
  "fl64 x = (if x = 0 then 0 else let u = 2 powi (ilog2 x - 52) in of_int (rint (x / u)) * u)"

subsection \<open>Tables\<close>

text \<open>
  The value SQLite keeps in a column of \<^verbatim>\<open>INTEGER\<close> affinity for a text that the
  operator typed: the integer when the text is an integer numeral that fits 64 bits,
  or a numeral whose value is such an integer; the real number when the text is any
  other numeral, so that \<^verbatim>\<open>1.5\<close> and \<^verbatim>\<open>1.50\<close> are the same key; the text itself
  when it is no numeral. Only the first can equal a client's id.
\<close>

datatype key = IntKey int | RealKey rat | TextKey pystr

text \<open>The integers that fit SQLite's signed 64-bit \<^verbatim>\<open>INTEGER\<close>.\<close>

definition sql_int :: "int \<Rightarrow> bool" where
  "sql_int i \<longleftrightarrow> - 9223372036854775808 \<le> i \<and> i \<le> 9223372036854775807"

record client =
  c_id :: int
  c_name :: pystr
  meter_no :: pystr
  address :: pystr
  phone :: pystr

record reading =
  r_id :: int
  r_client_id :: key
  r_date :: pystr
  r_reading :: rat

record bill =
  b_id :: int
  b_client_id :: key
  start_date :: pystr
  end_date :: pystr
  units :: rat
  amount :: rat
  status :: pystr

record store =
  clients :: "client list"
  clients_seq :: int
  readings :: "reading list"
  readings_seq :: int
  bills :: "bill list"
  bills_seq :: int

text \<open>\<^verbatim>\<open>create_tables\<close> on a fresh database file.\<close>

definition create_tables :: store where
  "create_tables = \<lparr>clients = [], clients_seq = 0, readings = [], readings_seq = 0,
                     bills = [], bills_seq = 0\<rparr>"

text \<open>
  \<^verbatim>\<open>INTEGER PRIMARY KEY AUTOINCREMENT\<close>: one more than the largest rowid the table has
  or ever had.
\<close>

definition next_rowid :: "int \<Rightarrow> int list \<Rightarrow> int" where
  "next_rowid seq ids = fold max ids seq + 1"

subsection \<open>What an operation reports\<close>

text \<open>
  The exceptions that nothing catches. They end the program; what was printed before
  stays printed, and the store is as it was before the operation.
\<close>

datatype error = EOFError | ValueError | OverflowError

record bill_summary =
  s_client_id :: key
  s_units :: rat
  s_rate :: rat
  s_amount :: rat
  s_status :: pystr

record analysis =
  total_units :: rat
  total_amount :: rat
  avg_units :: rat
  max_units :: rat
  top_list :: "(pystr \<times> rat) list"

datatype message =
    InvalidPhone
  | ClientAdded
  | MeterExists
  | NoClients
  | ClientList "client list"
  | InvalidId
  | NoClientFound
  | ClientRemoved
  | DeletionCancelled
  | ReadingAdded
  | NoReadings
  | ReadingList "(int \<times> pystr \<times> pystr \<times> rat) list"
  | NotEnoughReadings
  | BillGenerated bill_summary
  | NoBills
  | BillList "(int \<times> pystr \<times> pystr \<times> pystr \<times> rat \<times> rat \<times> pystr) list"
  | NoBillingData
  | Analysis analysis
  | InvalidChoice

subsection \<open>Client functions\<close>

text \<open>
  The \<^verbatim>\<open>while True\<close> loop of \<^verbatim>\<open>add_client\<close> over the lines still to be read from
  the terminal: each entry is stripped and tested, a bad one is answered with the
  message and the next is read. \<^verbatim>\<open>input()\<close> raises \<^verbatim>\<open>EOFError\<close> when no line is
  left; the answers to the entries read before are on the screen by then.
\<close>

fun read_phone :: "pystr list \<Rightarrow> (message list \<times> error) + (message list \<times> pystr)" where
  "read_phone [] = Inl ([], EOFError)"
| "read_phone (e # es) =
     (let phone = strip e in
      if validate_phone phone then Inr ([], phone)
      else (case read_phone es of
              Inl (out, err) \<Rightarrow> Inl (InvalidPhone # out, err)
            | Inr (out, p) \<Rightarrow> Inr (InvalidPhone # out, p)))"

definition add_client ::
  "store \<Rightarrow> pystr \<Rightarrow> pystr \<Rightarrow> pystr \<Rightarrow> pystr list \<Rightarrow>
   (message list \<times> error) + (message list \<times> store)" where
  "add_client s name_in meter_in address_in phones =
     (let name = strip name_in; meter = strip meter_in; addr = strip address_in in
      case read_phone phones of
        Inl (out, err) \<Rightarrow> Inl (out, err)
      | Inr (out, ph) \<Rightarrow>
          if meter \<in> set (map meter_no (clients s)) then Inr (out @ [MeterExists], s)
          else
            (let i = next_rowid (clients_seq s) (map c_id (clients s)) in
             Inr (out @ [ClientAdded],
                  s\<lparr>clients := clients s @
                       [\<lparr>c_id = i, c_name = name, meter_no = meter, address = addr, phone = ph\<rparr>],
                    clients_seq := i\<rparr>)))"

definition view_clients :: "store \<Rightarrow> message list" where
  "view_clients s = (if clients s = [] then [NoClients] else [ClientList (clients s)])"

text \<open>
  \<^verbatim>\<open>remove_client\<close>: the entry is what \<^verbatim>\<open>int(input(...))\<close> gives, \<open>None\<close> when it
  raises \<^verbatim>\<open>ValueError\<close>, which is caught. \<^verbatim>\<open>cur.execute\<close> of the \<^verbatim>\<open>SELECT\<close> hands
  the integer to SQLite and raises \<^verbatim>\<open>OverflowError\<close>, which nothing catches, when
  the integer does not fit 64 bits. A rowid fits 64 bits, so such an integer is the
  id of no row, and the exception stands on the branch where no row is found. The
  confirmation is read only when the row exists.
\<close>

definition remove_client ::
  "store \<Rightarrow> int option \<Rightarrow> pystr \<Rightarrow> (message list \<times> error) + (message list \<times> store)" where
  "remove_client s entry confirm =
     (case entry of
        None \<Rightarrow> Inr (view_clients s @ [InvalidId], s)
      | Some client_id \<Rightarrow>
          (case find (\<lambda>c. c_id c = client_id) (clients s) of
             None \<Rightarrow>
               if sql_int client_id then Inr (view_clients s @ [NoClientFound], s)
               else Inl (view_clients s, OverflowError)
           | Some row \<Rightarrow>
               if lower_is_y confirm
               then Inr (view_clients s @ [ClientRemoved],
                         s\<lparr>clients := filter (\<lambda>c. c_id c \<noteq> client_id) (clients s)\<rparr>)
               else Inr (view_clients s @ [DeletionCancelled], s)))"

subsection \<open>Reading functions\<close>

text \<open>
  \<^verbatim>\<open>add_reading\<close>: the value is what \<^verbatim>\<open>float(input(...))\<close> gives, \<open>None\<close> when it
  raises \<^verbatim>\<open>ValueError\<close>, which nothing catches; the client list is on the screen
  by then.
\<close>

definition add_reading ::
  "store \<Rightarrow> key \<Rightarrow> pystr \<Rightarrow> rat option \<Rightarrow> (message list \<times> error) + (message list \<times> store)" where
  "add_reading s client_id date_in value_in =
     (case value_in of
        None \<Rightarrow> Inl (view_clients s, ValueError)
      | Some v \<Rightarrow>
          (let i = next_rowid (readings_seq s) (map r_id (readings s)) in
           Inr (view_clients s @ [ReadingAdded],
                s\<lparr>readings := readings s @
                     [\<lparr>r_id = i, r_client_id = client_id, r_date = date_in, r_reading = v\<rparr>],
                  readings_seq := i\<rparr>)))"

text \<open>\<^verbatim>\<open>FROM readings r JOIN clients c ON r.client_id=c.id ORDER BY r.date\<close>\<close>

definition readings_join :: "store \<Rightarrow> (int \<times> pystr \<times> pystr \<times> rat) list" where
  "readings_join s =
     [(r_id r, c_name c, r_date r, r_reading r).
        r \<leftarrow> readings s, c \<leftarrow> clients s, r_client_id r = IntKey (c_id c)]"

definition view_readings :: "store \<Rightarrow> message list" where
  "view_readings s =
     (let df = sort_key (\<lambda>row. fst (snd (snd row))) (readings_join s) in
      if df = [] then [NoReadings] else [ReadingList df])"

subsection \<open>Billing functions\<close>

text \<open>
  \<^verbatim>\<open>SELECT reading FROM readings WHERE client_id=? AND date BETWEEN ? AND ?
  ORDER BY date ASC\<close>
\<close>

definition select_readings :: "store \<Rightarrow> key \<Rightarrow> pystr \<Rightarrow> pystr \<Rightarrow> rat list" where
  "select_readings s client_id start end =
     map r_reading
       (sort_key r_date
          (filter (\<lambda>r. r_client_id r = client_id \<and> start \<le> r_date r \<and> r_date r \<le> end)
             (readings s)))"

definition generate_bill :: "store \<Rightarrow> key \<Rightarrow> pystr \<Rightarrow> pystr \<Rightarrow> message list \<times> store" where
  "generate_bill s client_id start end =
     (let rs = select_readings s client_id start end in
      if length rs < 2 then (view_clients s @ [NotEnoughReadings], s)
      else
        (let u = np_round2 (last rs - hd rs);
             rate = 5;
             a = np_round2 (u * rate);
             i = next_rowid (bills_seq s) (map b_id (bills s))
         in (view_clients s @
               [BillGenerated \<lparr>s_client_id = client_id, s_units = u, s_rate = rate,
                                s_amount = a, s_status = ascii ''Unpaid''\<rparr>],
             s\<lparr>bills := bills s @
                  [\<lparr>b_id = i, b_client_id = client_id, start_date = start, end_date = end,
                    units = u, amount = a, status = ascii ''Unpaid''\<rparr>],
               bills_seq := i\<rparr>)))"

definition view_bills :: "store \<Rightarrow> message list" where
  "view_bills s =
     (let df = [(b_id b, c_name c, start_date b, end_date b, units b, amount b, status b).
                  b \<leftarrow> bills s, c \<leftarrow> clients s, b_client_id b = IntKey (c_id c)]
      in if df = [] then [NoBills] else [BillList df])"

subsection \<open>Analysis\<close>

text \<open>\<^verbatim>\<open>SELECT c.name, b.units, b.amount FROM bills b JOIN clients c ON b.client_id=c.id\<close>\<close>

definition df_bills :: "store \<Rightarrow> (pystr \<times> rat \<times> rat) list" where
  "df_bills s =
     [(c_name c, units b, amount b).
        b \<leftarrow> bills s, c \<leftarrow> clients s, b_client_id b = IntKey (c_id c)]"

text \<open>
  \<^verbatim>\<open>groupby("name")["units"].sum()\<close>: one entry for each name, the names in ascending
  order (\<^verbatim>\<open>sort=True\<close> is the default), with the sum of the units of its rows.
\<close>

definition groupby_sum :: "(pystr \<times> rat) list \<Rightarrow> (pystr \<times> rat) list" where
  "groupby_sum rows =
     map (\<lambda>n. (n, sum_list (map snd (filter (\<lambda>r. fst r = n) rows))))
       (sort (remdups (map fst rows)))"

text \<open>
  \<^verbatim>\<open>sort_values(ascending=False)\<close>: pandas reverses the entries, sorts them in
  ascending order and reverses the outcome.
\<close>

definition sort_values_desc :: "(pystr \<times> rat) list \<Rightarrow> (pystr \<times> rat) list" where
  "sort_values_desc xs = rev (sort_key snd (rev xs))"

text \<open>
  \<^verbatim>\<open>np.sum\<close> is the exact sum, which is what the additions of doubles give when no
  partial sum rounds; \<^verbatim>\<open>np.mean\<close> divides the sum by the count, one division of
  doubles; \<^verbatim>\<open>np.max\<close> is the largest element.
\<close>

definition np_mean :: "rat list \<Rightarrow> rat" where
  "np_mean xs = fl64 (sum_list xs / of_nat (length xs))"

definition np_max :: "rat list \<Rightarrow> rat" where
  "np_max xs = fold max (tl xs) (hd xs)"

definition show_analysis :: "store \<Rightarrow> message list" where
  "show_analysis s =
     (let df = df_bills s in
      if df = [] then [NoBillingData]
      else
        (let us = map (\<lambda>row. fst (snd row)) df;
             am = map (\<lambda>row. snd (snd row)) df;
             top_consumers = take 5 (sort_values_desc (groupby_sum (map (\<lambda>row. (fst row, fst (snd row))) df)))
         in [Analysis \<lparr>total_units = sum_list us, total_amount = sum_list am,
                       avg_units = np_mean us, max_units = np_max us,
                       top_list = top_consumers\<rparr>]))"

subsection \<open>Main menu\<close>

datatype command =
    AddClient pystr pystr pystr "pystr list"
  | ViewClients
  | RemoveClient "int option" pystr
  | AddReading key pystr "rat option"
  | ViewReadings
  | GenerateBill key pystr pystr
  | ViewBills
  | ShowAnalysis
  | OtherChoice

fun dispatch ::
  "store \<Rightarrow> command \<Rightarrow> (message list \<times> error) + (message list \<times> store)" where
  "dispatch s (AddClient n m a ps) = add_client s n m a ps"
| "dispatch s ViewClients = Inr (view_clients s, s)"
| "dispatch s (RemoveClient e c) = remove_client s e c"
| "dispatch s (AddReading k d v) = add_reading s k d v"
| "dispatch s ViewReadings = Inr (view_readings s, s)"
| "dispatch s (GenerateBill k st en) = Inr (generate_bill s k st en)"
| "dispatch s ViewBills = Inr (view_bills s, s)"
| "dispatch s ShowAnalysis = Inr (show_analysis s, s)"
| "dispatch s OtherChoice = Inr ([InvalidChoice], s)"

text \<open>
  The menu loop over the choices the operator makes: the store that is on disk when
  the choices are used up or an exception that nothing catches ends the program.
\<close>

fun main_menu :: "store \<Rightarrow> command list \<Rightarrow> store" where
  "main_menu s [] = s"
| "main_menu s (c # cs) =
     (case dispatch s c of
        Inl err \<Rightarrow> s
      | Inr (out, s') \<Rightarrow> main_menu s' cs)"

subsection \<open>Stores used as examples\<close>

text \<open>
  One client with two readings in January, entered in the reverse order of their
  dates, and one reading of a client that does not exist.
\<close>

definition jan_store :: store where
  "jan_store =
     \<lparr>clients = [\<lparr>c_id = 1, c_name = ascii ''A'', meter_no = ascii ''M1'',
                   address = ascii ''x'', phone = ascii ''0123456789''\<rparr>],
      clients_seq = 1,
      readings = [\<lparr>r_id = 1, r_client_id = IntKey 1, r_date = ascii ''2024-01-31'', r_reading = 135\<rparr>,
                  \<lparr>r_id = 2, r_client_id = IntKey 1, r_date = ascii ''2024-01-01'', r_reading = 100\<rparr>,
                  \<lparr>r_id = 3, r_client_id = IntKey 2, r_date = ascii ''2024-01-15'', r_reading = 7\<rparr>],
      readings_seq = 3, bills = [], bills_seq = 0\<rparr>"

text \<open>The invariant on the phone column of the clients table.\<close>

definition phones_ok :: "store \<Rightarrow> bool" where
  "phones_ok s = list_all (\<lambda>c. validate_phone (phone c)) (clients s)"

text \<open>The digits zero to nine of the Arabic script, U+0660 to U+0669.\<close>

definition arabic_phone :: pystr where
  "arabic_phone = [1632, 1633, 1634, 1635, 1636, 1637, 1638, 1639, 1640, 1641]"

text \<open>The store after the registration of one client on fresh tables.\<close>

definition bob_store :: store where
  "bob_store =
     \<lparr>clients = [\<lparr>c_id = 1, c_name = ascii ''Bob'', meter_no = ascii ''M1'',
                   address = ascii ''x'', phone = arabic_phone\<rparr>],
      clients_seq = 1, readings = [], readings_seq = 0, bills = [], bills_seq = 0\<rparr>"

text \<open>Rows of the examples.\<close>

definition mk_client :: "int \<Rightarrow> string \<Rightarrow> string \<Rightarrow> client" where
  "mk_client i n m =
     \<lparr>c_id = i, c_name = ascii n, meter_no = ascii m, address = ascii ''x'',
      phone = ascii ''0123456789''\<rparr>"

definition mk_bill :: "int \<Rightarrow> int \<Rightarrow> rat \<Rightarrow> bill" where
  "mk_bill i c u =
     \<lparr>b_id = i, b_client_id = IntKey c, start_date = ascii ''2024-01-01'',
      end_date = ascii ''2024-01-31'', units = u, amount = u * 5,
      status = ascii ''Unpaid''\<rparr>"

text \<open>Two clients, the first with two readings and the bill made from them.\<close>

definition office_store :: store where
  "office_store =
     \<lparr>clients = [mk_client 1 ''A'' ''M1'', mk_client 2 ''B'' ''M2''],
      clients_seq = 2,
      readings = [\<lparr>r_id = 1, r_client_id = IntKey 1, r_date = ascii ''2024-01-01'', r_reading = 100\<rparr>,
                  \<lparr>r_id = 2, r_client_id = IntKey 1, r_date = ascii ''2024-01-31'', r_reading = 135\<rparr>,
                  \<lparr>r_id = 3, r_client_id = IntKey 2, r_date = ascii ''2024-01-15'', r_reading = 7\<rparr>],
      readings_seq = 3,
      bills = [mk_bill 1 1 35], bills_seq = 1\<rparr>"

text \<open>The client row that a foreign key refers to, when there is one.\<close>

definition client_of :: "store \<Rightarrow> key \<Rightarrow> client option" where
  "client_of s k = find (\<lambda>c. k = IntKey (c_id c)) (clients s)"

text \<open>The name of that client; the empty string stands where there is none.\<close>

definition client_name :: "store \<Rightarrow> key \<Rightarrow> pystr" where
  "client_name s k = (case client_of s k of None \<Rightarrow> [] | Some c \<Rightarrow> c_name c)"

text \<open>The readings whose client exists.\<close>

definition listed_readings :: "store \<Rightarrow> reading list" where
  "listed_readings s = filter (\<lambda>r. client_of s (r_client_id r) \<noteq> None) (readings s)"









section \<open>Properties\<close>

subsection \<open>Billing\<close>

lemma np_round2_35: "np_round2 35 = 35"
  by (simp add: np_round2_def rint_def)

lemma np_round2_175: "np_round2 175 = 175"
  by (simp add: np_round2_def rint_def)

lemma jan_select:
  "select_readings jan_store (IntKey 1) (ascii ''2024-01-01'') (ascii ''2024-01-31'') = [100, 135]"
  by (simp add: select_readings_def jan_store_def ascii_def)

lemma length_select_readings:
  "length (select_readings s client_id start end) =
   length (filter (\<lambda>r. r_client_id r = client_id \<and> start \<le> r_date r \<and> r_date r \<le> end) (readings s))"
  by (simp add: select_readings_def)

text \<open>
  C1. When the readings of the client within the period, in ascending order of
  date, are 100 and 135, \<open>generate_bill\<close> reports a bill of 35 units at rate 5 for
  an amount of 175 with status Unpaid, and appends exactly that bill, under the next
  rowid, to the bills table; nothing else in the store changes.
\<close>

theorem generate_bill_100_135:
  assumes "select_readings s client_id start end = [100, 135]"
  shows "generate_bill s client_id start end =
           (view_clients s @
              [BillGenerated \<lparr>s_client_id = client_id, s_units = 35, s_rate = 5,
                               s_amount = 175, s_status = ascii ''Unpaid''\<rparr>],
            s\<lparr>bills := bills s @
                 [\<lparr>b_id = next_rowid (bills_seq s) (map b_id (bills s)),
                   b_client_id = client_id, start_date = start, end_date = end,
                   units = 35, amount = 175, status = ascii ''Unpaid''\<rparr>],
              bills_seq := next_rowid (bills_seq s) (map b_id (bills s))\<rparr>)"
  using assms by (simp add: generate_bill_def Let_def np_round2_35 np_round2_175)

theorem generate_bill_100_135_witness:
  "select_readings jan_store (IntKey 1) (ascii ''2024-01-01'') (ascii ''2024-01-31'') = [100, 135] \<and>
   bills (snd (generate_bill jan_store (IntKey 1) (ascii ''2024-01-01'') (ascii ''2024-01-31''))) =
     [\<lparr>b_id = 1, b_client_id = IntKey 1, start_date = ascii ''2024-01-01'',
       end_date = ascii ''2024-01-31'', units = 35, amount = 175, status = ascii ''Unpaid''\<rparr>]"
  using generate_bill_100_135 [OF jan_select] jan_select
  by (simp add: jan_store_def next_rowid_def)

text \<open>
  C2. When fewer than two readings of the client have their date within the period,
  \<open>generate_bill\<close> reports that there are not enough readings and leaves the whole
  store, hence the bills table, as it was.
\<close>

theorem generate_bill_insufficient:
  assumes "length (filter (\<lambda>r. r_client_id r = client_id \<and> start \<le> r_date r \<and> r_date r \<le> end)
                     (readings s)) < 2"
  shows "generate_bill s client_id start end = (view_clients s @ [NotEnoughReadings], s)"
  using assms by (simp add: generate_bill_def length_select_readings)

theorem generate_bill_insufficient_witness:
  "length (filter (\<lambda>r. r_client_id r = IntKey 2 \<and> ascii ''2024-01-01'' \<le> r_date r \<and>
                        r_date r \<le> ascii ''2024-01-31'') (readings jan_store)) < 2 \<and>
   generate_bill jan_store (IntKey 2) (ascii ''2024-01-01'') (ascii ''2024-01-31'') =
     (view_clients jan_store @ [NotEnoughReadings], jan_store)"
proof -
  have h: "length (filter (\<lambda>r. r_client_id r = IntKey 2 \<and> ascii ''2024-01-01'' \<le> r_date r \<and>
                        r_date r \<le> ascii ''2024-01-31'') (readings jan_store)) < 2"
    by (simp add: jan_store_def ascii_def)
  show ?thesis using h generate_bill_insufficient [OF h] by simp
qed

subsection \<open>Clients\<close>

lemma find_c_id_None:
  "client_id \<notin> set (map c_id cs) \<Longrightarrow> find (\<lambda>c. c_id c = client_id) cs = None"
  by (induction cs) auto

lemma find_c_id_Some:
  "client_id \<in> set (map c_id cs) \<Longrightarrow> \<exists>row. find (\<lambda>c. c_id c = client_id) cs = Some row"
  by (induction cs) auto

text \<open>
  For an id that fits SQLite's signed 64-bit integer and that no row of the clients
  table has, \<open>remove_client\<close> reports that no client was found and leaves the
  store, hence the clients table, as it was: on these ids the program does what C7
  says.
\<close>

theorem remove_client_absent:
  assumes "sql_int client_id" and "client_id \<notin> set (map c_id (clients s))"
  shows "remove_client s (Some client_id) confirm = Inr (view_clients s @ [NoClientFound], s)"
  using assms(1) find_c_id_None [OF assms(2)] by (simp add: remove_client_def)

theorem remove_client_absent_witness:
  "sql_int 5 \<and> 5 \<notin> set (map c_id (clients jan_store)) \<and>
   remove_client jan_store (Some 5) [121] =
     Inr (view_clients jan_store @ [NoClientFound], jan_store)"
proof -
  have r: "sql_int 5" by (simp add: sql_int_def)
  have h: "5 \<notin> set (map c_id (clients jan_store))"
    by (simp add: jan_store_def)
  show ?thesis using r h remove_client_absent [OF r h] by simp
qed

text \<open>
  C7. The program breaks it on an id that does not fit 64 bits: 9223372036854775808,
  the 63rd power of two, is the id of no client, and \<open>remove_client\<close> ends with
  \<^verbatim>\<open>OverflowError\<close> after the client list, without the report that no client was
  found. The entry is a numeral, so the handler of \<^verbatim>\<open>ValueError\<close>, which answers an
  entry that is no number, does not see it.
\<close>

theorem remove_client_overflow:
  "9223372036854775808 \<notin> set (map c_id (clients jan_store)) \<and>
   remove_client jan_store (Some 9223372036854775808) [121] =
     Inl (view_clients jan_store, OverflowError)"
  by (simp add: remove_client_def sql_int_def jan_store_def)

lemma length_filter_other_id:
  "distinct (map f xs) \<Longrightarrow> k \<in> set (map f xs) \<Longrightarrow>
   length (filter (\<lambda>c. f c \<noteq> k) xs) + 1 = length xs"
proof (induction xs)
  case Nil
  then show ?case by simp
next
  case (Cons x xs)
  show ?case
  proof (cases "f x = k")
    case True
    with Cons.prems have "k \<notin> set (map f xs)" by auto
    then have "filter (\<lambda>c. f c \<noteq> k) xs = xs"
      by (auto simp: filter_id_conv)
    with True show ?thesis by simp
  next
    case False
    with Cons show ?thesis by auto
  qed
qed

text \<open>
  C8. For an id that a row of the clients table has, and a confirmation whose lower
  case is \<^verbatim>\<open>y\<close>, \<open>remove_client\<close> deletes the rows with that id and nothing else:
  the other client rows stay, in their order, and the readings and bills tables are
  untouched, also the rows that refer to the deleted client. With ids that are
  distinct, as a primary key is, exactly one row goes.
\<close>

theorem remove_client_present:
  assumes "client_id \<in> set (map c_id (clients s))" and "lower_is_y confirm"
  shows "remove_client s (Some client_id) confirm =
           Inr (view_clients s @ [ClientRemoved],
                s\<lparr>clients := filter (\<lambda>c. c_id c \<noteq> client_id) (clients s)\<rparr>) \<and>
         readings (snd (projr (remove_client s (Some client_id) confirm))) = readings s \<and>
         bills (snd (projr (remove_client s (Some client_id) confirm))) = bills s \<and>
         (distinct (map c_id (clients s)) \<longrightarrow>
            length (clients (snd (projr (remove_client s (Some client_id) confirm)))) + 1 =
            length (clients s))"
proof -
  from find_c_id_Some [OF assms(1)] obtain row
    where "find (\<lambda>c. c_id c = client_id) (clients s) = Some row" ..
  with assms(2) have eq: "remove_client s (Some client_id) confirm =
           Inr (view_clients s @ [ClientRemoved],
                s\<lparr>clients := filter (\<lambda>c. c_id c \<noteq> client_id) (clients s)\<rparr>)"
    by (simp add: remove_client_def)
  show ?thesis
    using eq length_filter_other_id [of c_id "clients s" client_id] assms(1) by simp
qed

theorem remove_client_present_witness:
  "1 \<in> set (map c_id (clients office_store)) \<and> lower_is_y [89] \<and>
   distinct (map c_id (clients office_store)) \<and>
   remove_client office_store (Some 1) [89] =
     Inr (view_clients office_store @ [ClientRemoved],
          office_store\<lparr>clients := [mk_client 2 ''B'' ''M2'']\<rparr>) \<and>
   readings (snd (projr (remove_client office_store (Some 1) [89]))) = readings office_store \<and>
   bills (snd (projr (remove_client office_store (Some 1) [89]))) = bills office_store \<and>
   length (clients (snd (projr (remove_client office_store (Some 1) [89])))) + 1 =
     length (clients office_store)"
proof -
  have h1: "1 \<in> set (map c_id (clients office_store))"
    by (simp add: office_store_def mk_client_def)
  have h2: "lower_is_y [89]" by (simp add: lower_is_y_def)
  have h3: "distinct (map c_id (clients office_store))"
    by (simp add: office_store_def mk_client_def)
  have h4: "filter (\<lambda>c. c_id c \<noteq> 1) (clients office_store) = [mk_client 2 ''B'' ''M2'']"
    by (simp add: office_store_def mk_client_def)
  have h5: "length (clients office_store) = 2" by (simp add: office_store_def)
  show ?thesis using h1 h2 h3 remove_client_present [OF h1 h2] by (simp add: h4 h5)
qed

lemma read_phone_valid:
  "read_phone ps = Inr (out, p) \<Longrightarrow> validate_phone p"
  by (induction ps arbitrary: out) (auto simp: Let_def split: if_splits sum.splits prod.splits)

lemma read_phone_split:
  "read_phone ps = Inr (out, p) \<Longrightarrow>
   \<exists>pre e post. ps = pre @ e # post \<and> (\<forall>x\<in>set pre. \<not> validate_phone (strip x)) \<and>
      p = strip e \<and> out = replicate (length pre) InvalidPhone"
proof (induction ps arbitrary: out)
  case Nil
  then show ?case by simp
next
  case (Cons a ps)
  show ?case
  proof (cases "validate_phone (strip a)")
    case True
    with Cons.prems have "p = strip a" "out = []" by (simp_all add: Let_def)
    then have "a # ps = [] @ a # ps \<and> (\<forall>x\<in>set []. \<not> validate_phone (strip x)) \<and>
      p = strip a \<and> out = replicate (length ([]::pystr list)) InvalidPhone" by simp
    then show ?thesis by blast
  next
    case False
    with Cons.prems obtain out' where r: "read_phone ps = Inr (out', p)" and o: "out = InvalidPhone # out'"
      by (auto simp: Let_def split: sum.splits prod.splits)
    from Cons.IH [OF r] obtain pre e post where
      h: "ps = pre @ e # post" "\<forall>x\<in>set pre. \<not> validate_phone (strip x)" "p = strip e"
         "out' = replicate (length pre) InvalidPhone" by blast
    with False o have "a # ps = (a # pre) @ e # post \<and> (\<forall>x\<in>set (a # pre). \<not> validate_phone (strip x)) \<and>
      p = strip e \<and> out = replicate (length (a # pre)) InvalidPhone" by simp
    then show ?thesis by blast
  qed
qed

lemma read_phone_eof:
  "read_phone ps = Inl (out, err) \<Longrightarrow>
   err = EOFError \<and> (\<forall>e\<in>set ps. \<not> validate_phone (strip e)) \<and>
   out = replicate (length ps) InvalidPhone"
  by (induction ps arbitrary: out) (auto simp: Let_def split: if_splits sum.splits prod.splits)

lemma read_phone_exists:
  "\<exists>e\<in>set ps. validate_phone (strip e) \<Longrightarrow> \<exists>out p. read_phone ps = Inr (out, p)"
proof (induction ps)
  case Nil
  then show ?case by simp
next
  case (Cons a ps)
  show ?case
  proof (cases "validate_phone (strip a)")
    case True
    then show ?thesis by (simp add: Let_def)
  next
    case False
    with Cons.prems have "\<exists>e\<in>set ps. validate_phone (strip e)" by auto
    from Cons.IH [OF this] obtain out p where "read_phone ps = Inr (out, p)" by blast
    with False show ?thesis by (simp add: Let_def)
  qed
qed

lemma read_phone_no_status:
  "read_phone ps = Inr (out, p) \<Longrightarrow> set out \<subseteq> {InvalidPhone}"
  by (induction ps arbitrary: out) (auto simp: Let_def split: if_splits sum.splits prod.splits)

lemma add_client_cases:
  assumes "add_client s n m a ps = Inr (out, s')"
  obtains (conflict) out0 p where "read_phone ps = Inr (out0, p)"
      "strip m \<in> set (map meter_no (clients s))" "out = out0 @ [MeterExists]" "s' = s"
  | (added) out0 p where "read_phone ps = Inr (out0, p)"
      "strip m \<notin> set (map meter_no (clients s))" "out = out0 @ [ClientAdded]"
      "s' = s\<lparr>clients := clients s @
                 [\<lparr>c_id = next_rowid (clients_seq s) (map c_id (clients s)), c_name = strip n,
                   meter_no = strip m, address = strip a, phone = p\<rparr>],
               clients_seq := next_rowid (clients_seq s) (map c_id (clients s))\<rparr>"
  using assms
  by (auto simp: add_client_def Let_def split: sum.splits if_splits prod.splits)

lemma add_client_eof:
  "add_client s n m a ps = Inl (out, err) \<Longrightarrow> read_phone ps = Inl (out, err)"
  by (auto simp: add_client_def Let_def split: sum.splits if_splits prod.splits)

text \<open>
  C3, as amended. In every run of \<open>add_client\<close>, an entry that, stripped as the code
  strips it, does not consist of exactly ten decimal digits is answered with the
  invalid-phone message and is not stored, and a client is stored only with an entry
  that does; a decimal digit is any character of the Unicode category Nd, which is
  what \<^verbatim>\<open>\d\<close> matches, and not only one of \<^verbatim>\<open>0\<close> to \<^verbatim>\<open>9\<close>. A run ends with the
  end of the input after rejecting every entry, or it reaches the first entry that
  passes, rejects the ones before it, and then stores the client with that phone or
  reports that the meter number exists and stores nothing.
\<close>

theorem add_client_phone_entries:
  "(add_client s n m a ps = Inl (out, err) \<longrightarrow>
      err = EOFError \<and>
      (\<forall>e\<in>set ps. \<not> (length (strip e) = 10 \<and> list_all re_digit (strip e))) \<and>
      out = replicate (length ps) InvalidPhone) \<and>
   (add_client s n m a ps = Inr (out, s') \<longrightarrow>
      (\<exists>pre e post. ps = pre @ e # post \<and>
         (\<forall>x\<in>set pre. \<not> (length (strip x) = 10 \<and> list_all re_digit (strip x))) \<and>
         length (strip e) = 10 \<and> list_all re_digit (strip e) \<and>
         (out = replicate (length pre) InvalidPhone @ [ClientAdded] \<and>
          clients s' = clients s @
            [\<lparr>c_id = next_rowid (clients_seq s) (map c_id (clients s)), c_name = strip n,
              meter_no = strip m, address = strip a, phone = strip e\<rparr>] \<or>
          out = replicate (length pre) InvalidPhone @ [MeterExists] \<and> s' = s)))"
proof (rule conjI; rule impI)
  assume "add_client s n m a ps = Inl (out, err)"
  from read_phone_eof [OF add_client_eof [OF this]]
  show "err = EOFError \<and>
      (\<forall>e\<in>set ps. \<not> (length (strip e) = 10 \<and> list_all re_digit (strip e))) \<and>
      out = replicate (length ps) InvalidPhone"
    by (simp add: validate_phone_def)
next
  assume run: "add_client s n m a ps = Inr (out, s')"
  then obtain out0 p where r: "read_phone ps = Inr (out0, p)"
    by (cases rule: add_client_cases) auto
  from read_phone_split [OF r] obtain pre e post where
    h: "ps = pre @ e # post" "\<forall>x\<in>set pre. \<not> validate_phone (strip x)" "p = strip e"
       "out0 = replicate (length pre) InvalidPhone" by blast
  from read_phone_valid [OF r] h(3)
  have v: "length (strip e) = 10" "list_all re_digit (strip e)"
    by (simp_all add: validate_phone_def)
  from h(2) have b: "\<forall>x\<in>set pre. \<not> (length (strip x) = 10 \<and> list_all re_digit (strip x))"
    by (simp add: validate_phone_def)
  from run have "out = replicate (length pre) InvalidPhone @ [ClientAdded] \<and>
          clients s' = clients s @
            [\<lparr>c_id = next_rowid (clients_seq s) (map c_id (clients s)), c_name = strip n,
              meter_no = strip m, address = strip a, phone = strip e\<rparr>] \<or>
          out = replicate (length pre) InvalidPhone @ [MeterExists] \<and> s' = s"
    using r h(3,4) by (cases rule: add_client_cases) auto
  with h(1) b v show "\<exists>pre e post. ps = pre @ e # post \<and>
         (\<forall>x\<in>set pre. \<not> (length (strip x) = 10 \<and> list_all re_digit (strip x))) \<and>
         length (strip e) = 10 \<and> list_all re_digit (strip e) \<and>
         (out = replicate (length pre) InvalidPhone @ [ClientAdded] \<and>
          clients s' = clients s @
            [\<lparr>c_id = next_rowid (clients_seq s) (map c_id (clients s)), c_name = strip n,
              meter_no = strip m, address = strip a, phone = strip e\<rparr>] \<or>
          out = replicate (length pre) InvalidPhone @ [MeterExists] \<and> s' = s)"
    by blast
qed

lemma arabic_valid: "validate_phone arabic_phone"
  by (simp add: arabic_phone_def validate_phone_def re_digit_def decimal_blocks_def)

lemma arabic_strip: "strip arabic_phone = arabic_phone"
  by (simp add: arabic_phone_def strip_def isspace_def)

lemma short_invalid: "\<not> validate_phone (strip (ascii ''12345''))"
  by (simp add: validate_phone_def strip_def isspace_def ascii_def)

lemma strip_examples:
  "strip (ascii ''Bob'') = ascii ''Bob''" "strip (ascii ''M1'') = ascii ''M1''"
  "strip (ascii ''x'') = ascii ''x''" "strip (ascii ''Eve'') = ascii ''Eve''"
  "strip (ascii '' M1 '') = ascii ''M1''" "strip (ascii ''y'') = ascii ''y''"
  by (simp_all add: strip_def isspace_def ascii_def)

lemma add_client_arabic:
  "add_client create_tables (ascii ''Bob'') (ascii ''M1'') (ascii ''x'') [ascii ''12345'', arabic_phone] =
     Inr ([InvalidPhone, ClientAdded],
          \<lparr>clients = [\<lparr>c_id = 1, c_name = ascii ''Bob'', meter_no = ascii ''M1'',
                        address = ascii ''x'', phone = arabic_phone\<rparr>],
           clients_seq = 1, readings = [], readings_seq = 0, bills = [], bills_seq = 0\<rparr>)"
proof -
  have r: "read_phone [ascii ''12345'', arabic_phone] = Inr ([InvalidPhone], arabic_phone)"
    using short_invalid arabic_valid by (simp add: arabic_strip)
  show ?thesis
    unfolding add_client_def r strip_examples by (simp add: create_tables_def next_rowid_def)
qed

lemma add_client_conflict_run:
  "add_client bob_store (ascii ''Eve'') (ascii '' M1 '') (ascii ''y'') [ascii ''12345'', arabic_phone] =
     Inr ([InvalidPhone, MeterExists], bob_store)"
proof -
  have r: "read_phone [ascii ''12345'', arabic_phone] = Inr ([InvalidPhone], arabic_phone)"
    using short_invalid arabic_valid by (simp add: arabic_strip)
  show ?thesis
    unfolding add_client_def r strip_examples by (simp add: bob_store_def)
qed

lemma add_client_eof_run:
  "add_client bob_store (ascii ''Eve'') (ascii ''M2'') (ascii ''y'') [ascii ''12345''] =
     Inl ([InvalidPhone], EOFError)"
proof -
  have r: "read_phone [ascii ''12345''] = Inl ([InvalidPhone], EOFError)"
    using short_invalid by simp
  show ?thesis
    unfolding add_client_def r by simp
qed

text \<open>
  C3, as stated, fails: a phone of ten Arabic-script digits is not made of ASCII
  digits, and the registration succeeds with it.
\<close>

theorem add_client_ascii_counterexample:
  "add_client create_tables (ascii ''Bob'') (ascii ''M1'') (ascii ''x'') [arabic_phone] =
     Inr ([ClientAdded],
          \<lparr>clients = [\<lparr>c_id = 1, c_name = ascii ''Bob'', meter_no = ascii ''M1'',
                        address = ascii ''x'', phone = arabic_phone\<rparr>],
           clients_seq = 1, readings = [], readings_seq = 0, bills = [], bills_seq = 0\<rparr>) \<and>
   \<not> list_all ascii_digit arabic_phone"
proof -
  have r: "read_phone [arabic_phone] = Inr ([], arabic_phone)"
    using arabic_valid by (simp add: arabic_strip)
  have "\<not> list_all ascii_digit arabic_phone"
    by (simp add: arabic_phone_def ascii_digit_def)
  then show ?thesis
    unfolding add_client_def r strip_examples by (simp add: create_tables_def next_rowid_def)
qed

theorem add_client_phone_entries_witness:
  "add_client create_tables (ascii ''Bob'') (ascii ''M1'') (ascii ''x'') [ascii ''12345'', arabic_phone] =
     Inr ([InvalidPhone, ClientAdded], bob_store) \<and>
   (\<exists>pre e post. [ascii ''12345'', arabic_phone] = pre @ e # post \<and>
      (\<forall>x\<in>set pre. \<not> (length (strip x) = 10 \<and> list_all re_digit (strip x))) \<and>
      length (strip e) = 10 \<and> list_all re_digit (strip e) \<and>
      [InvalidPhone, ClientAdded] = replicate (length pre) InvalidPhone @ [ClientAdded]) \<and>
   add_client bob_store (ascii ''Eve'') (ascii '' M1 '') (ascii ''y'') [ascii ''12345'', arabic_phone] =
     Inr ([InvalidPhone, MeterExists], bob_store) \<and>
   (\<exists>pre e post. [ascii ''12345'', arabic_phone] = pre @ e # post \<and>
      (\<forall>x\<in>set pre. \<not> (length (strip x) = 10 \<and> list_all re_digit (strip x))) \<and>
      length (strip e) = 10 \<and> list_all re_digit (strip e) \<and>
      [InvalidPhone, MeterExists] = replicate (length pre) InvalidPhone @ [MeterExists]) \<and>
   add_client bob_store (ascii ''Eve'') (ascii ''M2'') (ascii ''y'') [ascii ''12345''] =
     Inl ([InvalidPhone], EOFError) \<and>
   list_all (\<lambda>e. \<not> (length (strip e) = 10 \<and> list_all re_digit (strip e))) [ascii ''12345'']"
proof -
  have a: "add_client create_tables (ascii ''Bob'') (ascii ''M1'') (ascii ''x'')
             [ascii ''12345'', arabic_phone] = Inr ([InvalidPhone, ClientAdded], bob_store)"
    using add_client_arabic by (simp add: bob_store_def)
  note c = add_client_conflict_run
  note e = add_client_eof_run
  from add_client_phone_entries [of create_tables "ascii ''Bob''" "ascii ''M1''" "ascii ''x''"
      "[ascii ''12345'', arabic_phone]" "[InvalidPhone, ClientAdded]" EOFError bob_store] a
  have 1: "\<exists>pre e post. [ascii ''12345'', arabic_phone] = pre @ e # post \<and>
      (\<forall>x\<in>set pre. \<not> (length (strip x) = 10 \<and> list_all re_digit (strip x))) \<and>
      length (strip e) = 10 \<and> list_all re_digit (strip e) \<and>
      [InvalidPhone, ClientAdded] = replicate (length pre) InvalidPhone @ [ClientAdded]"
    by auto
  from add_client_phone_entries [of bob_store "ascii ''Eve''" "ascii '' M1 ''" "ascii ''y''"
      "[ascii ''12345'', arabic_phone]" "[InvalidPhone, MeterExists]" EOFError bob_store] c
  have 2: "\<exists>pre e post. [ascii ''12345'', arabic_phone] = pre @ e # post \<and>
      (\<forall>x\<in>set pre. \<not> (length (strip x) = 10 \<and> list_all re_digit (strip x))) \<and>
      length (strip e) = 10 \<and> list_all re_digit (strip e) \<and>
      [InvalidPhone, MeterExists] = replicate (length pre) InvalidPhone @ [MeterExists]"
    by auto
  from add_client_phone_entries [of bob_store "ascii ''Eve''" "ascii ''M2''" "ascii ''y''"
      "[ascii ''12345'']" "[InvalidPhone]" EOFError bob_store] e
  have "\<forall>e\<in>set [ascii ''12345'']. \<not> (length (strip e) = 10 \<and> list_all re_digit (strip e))"
    by blast
  then have 3: "list_all (\<lambda>e. \<not> (length (strip e) = 10 \<and> list_all re_digit (strip e)))
                  [ascii ''12345'']"
    by (simp only: list_all_iff)
  from a c e 1 2 3 show ?thesis by blast
qed

lemma add_client_meter_present:
  assumes "add_client s n m a ps = Inr (out, s')"
  shows "strip m \<in> set (map meter_no (clients s'))"
  using assms by (cases rule: add_client_cases) auto

lemma add_client_conflict:
  assumes "strip m \<in> set (map meter_no (clients s))" and "read_phone ps = Inr (out0, p)"
  shows "add_client s n m a ps = Inr (out0 @ [MeterExists], s)"
  using assms by (simp add: add_client_def)

text \<open>
  C4. After a registration that reached the insert, a second registration whose
  meter number is the same once stripped, and whose phone entries contain a valid
  one, reports that the meter number exists, adds no client and leaves the store,
  hence the number of clients, as it was.
\<close>

theorem add_client_same_meter:
  assumes "add_client s n1 m1 a1 ps1 = Inr (out1, s1)"
    and "strip m2 = strip m1"
    and "\<exists>e\<in>set ps2. validate_phone (strip e)"
  shows "\<exists>out2 s2. add_client s1 n2 m2 a2 ps2 = Inr (out2, s2) \<and>
           last out2 = MeterExists \<and> ClientAdded \<notin> set out2 \<and> s2 = s1 \<and>
           length (clients s2) = length (clients s1)"
proof -
  from read_phone_exists [OF assms(3)] obtain out0 p where r: "read_phone ps2 = Inr (out0, p)"
    by blast
  from add_client_meter_present [OF assms(1)] assms(2)
  have "strip m2 \<in> set (map meter_no (clients s1))" by simp
  from add_client_conflict [OF this r] read_phone_no_status [OF r]
  show ?thesis by auto
qed

theorem add_client_same_meter_witness:
  "add_client create_tables (ascii ''Bob'') (ascii ''M1'') (ascii ''x'') [ascii ''12345'', arabic_phone] =
     Inr ([InvalidPhone, ClientAdded], bob_store) \<and>
   strip (ascii '' M1 '') = strip (ascii ''M1'') \<and>
   (\<exists>e\<in>set [arabic_phone]. validate_phone (strip e)) \<and>
   (\<exists>out2. add_client bob_store (ascii ''Eve'') (ascii '' M1 '') (ascii ''y'') [arabic_phone] =
              Inr (out2, bob_store) \<and> last out2 = MeterExists) \<and>
   length (clients bob_store) = 1"
proof -
  have h1: "add_client create_tables (ascii ''Bob'') (ascii ''M1'') (ascii ''x'')
              [ascii ''12345'', arabic_phone] = Inr ([InvalidPhone, ClientAdded], bob_store)"
    using add_client_arabic by (simp add: bob_store_def)
  have h2: "strip (ascii '' M1 '') = strip (ascii ''M1'')"
    by (simp add: strip_def isspace_def ascii_def)
  have h3: "\<exists>e\<in>set [arabic_phone]. validate_phone (strip e)"
    using arabic_valid by (simp add: arabic_strip)
  have h4: "length (clients bob_store) = 1" by (simp add: bob_store_def)
  from add_client_same_meter [OF h1 h2 h3, of "ascii ''Eve''" "ascii ''y''"]
  have "\<exists>out2. add_client bob_store (ascii ''Eve'') (ascii '' M1 '') (ascii ''y'') [arabic_phone] =
              Inr (out2, bob_store) \<and> last out2 = MeterExists" by blast
  with h1 h2 h3 h4 show ?thesis by blast
qed

subsection \<open>The phone invariant\<close>

lemma add_client_preserves:
  assumes "add_client s n m a ps = Inr (out, s')" and "phones_ok s"
  shows "phones_ok s'"
  using assms(1)
proof (cases rule: add_client_cases)
  case (conflict out0 p)
  with assms(2) show ?thesis by simp
next
  case (added out0 p)
  from read_phone_valid [OF added(1)] assms(2) added(4) show ?thesis
    by (simp add: phones_ok_def)
qed

lemma remove_client_preserves:
  "remove_client s e c = Inr (out, s') \<Longrightarrow> phones_ok s \<Longrightarrow> phones_ok s'"
  by (auto simp: remove_client_def phones_ok_def list_all_iff split: option.splits if_splits)

lemma add_reading_preserves:
  "add_reading s k d v = Inr (out, s') \<Longrightarrow> phones_ok s \<Longrightarrow> phones_ok s'"
  by (auto simp: add_reading_def phones_ok_def Let_def split: option.splits)

lemma generate_bill_preserves:
  "phones_ok s \<Longrightarrow> phones_ok (snd (generate_bill s k st en))"
  by (auto simp: generate_bill_def phones_ok_def Let_def)

lemma dispatch_preserves:
  assumes "dispatch s c = Inr (out, s')" and "phones_ok s"
  shows "phones_ok s'"
proof (cases c)
  case (AddClient n m a ps)
  with assms add_client_preserves show ?thesis by auto
next
  case (RemoveClient e cf)
  with assms remove_client_preserves show ?thesis by auto
next
  case (AddReading k d v)
  with assms add_reading_preserves show ?thesis by auto
next
  case (GenerateBill k st en)
  with assms generate_bill_preserves [of s k st en] show ?thesis by auto
qed (use assms in auto)

lemma main_menu_preserves: "phones_ok s \<Longrightarrow> phones_ok (main_menu s cs)"
proof (induction cs arbitrary: s)
  case Nil
  then show ?case by simp
next
  case (Cons c cs)
  show ?case
  proof (cases "dispatch s c")
    case (Inl err)
    with Cons.prems show ?thesis by simp
  next
    case (Inr r)
    obtain out s' where r: "r = (out, s')" by (cases r)
    with Inr dispatch_preserves Cons.prems have "phones_ok s'" by blast
    from Cons.IH [OF this] Inr r show ?thesis by simp
  qed
qed

text \<open>
  C10. The phone of every client row matches the ten-digit pattern: this holds of
  the tables that \<open>create_tables\<close> makes, every menu operation that returns keeps
  it, and so does every run of the menu, which therefore never leaves a store that
  breaks it. No operation rewrites a stored phone: rows are only appended, with a
  phone that passed the test, or deleted.
\<close>

theorem phone_invariant:
  "phones_ok create_tables \<and>
   (phones_ok s \<longrightarrow> dispatch s c = Inr (out, s') \<longrightarrow> phones_ok s') \<and>
   (phones_ok s \<longrightarrow> phones_ok (main_menu s cs))"
proof -
  have i: "phones_ok create_tables" by (simp add: phones_ok_def create_tables_def)
  from i main_menu_preserves dispatch_preserves show ?thesis by blast
qed

theorem phone_invariant_witness:
  "phones_ok create_tables \<and>
   dispatch create_tables
     (AddClient (ascii ''Bob'') (ascii ''M1'') (ascii ''x'') [ascii ''12345'', arabic_phone]) =
     Inr ([InvalidPhone, ClientAdded], bob_store) \<and>
   phones_ok bob_store \<and>
   main_menu create_tables
     [AddClient (ascii ''Bob'') (ascii ''M1'') (ascii ''x'') [ascii ''12345'', arabic_phone]] =
     bob_store \<and>
   map phone (clients bob_store) = [arabic_phone]"
proof -
  have d: "dispatch create_tables
     (AddClient (ascii ''Bob'') (ascii ''M1'') (ascii ''x'') [ascii ''12345'', arabic_phone]) =
     Inr ([InvalidPhone, ClientAdded], bob_store)"
    using add_client_arabic by (simp add: bob_store_def)
  have m: "main_menu create_tables
     [AddClient (ascii ''Bob'') (ascii ''M1'') (ascii ''x'') [ascii ''12345'', arabic_phone]] =
     bob_store"
    using d by simp
  have p: "map phone (clients bob_store) = [arabic_phone]" by (simp add: bob_store_def)
  from phone_invariant [of create_tables
      "AddClient (ascii ''Bob'') (ascii ''M1'') (ascii ''x'') [ascii ''12345'', arabic_phone]"
      "[InvalidPhone, ClientAdded]" bob_store
      "[AddClient (ascii ''Bob'') (ascii ''M1'') (ascii ''x'') [ascii ''12345'', arabic_phone]]"]
    d m p show ?thesis by simp
qed

subsection \<open>Reports over the join with the clients\<close>

lemma sort_key_Nil_iff: "sort_key f xs = [] \<longleftrightarrow> xs = []"
  using set_sort [of f xs] by (metis set_empty)

lemma join_none:
  "\<forall>c\<in>set cs. k \<noteq> IntKey (c_id c) \<Longrightarrow>
   concat (map (\<lambda>c. if k = IntKey (c_id c) then [f c] else []) cs) = []"
  by (induction cs) auto

lemma join_inner:
  assumes "distinct (map c_id cs)"
  shows "concat (map (\<lambda>c. if k = IntKey (c_id c) then [f c] else []) cs) =
         (case find (\<lambda>c. k = IntKey (c_id c)) cs of None \<Rightarrow> [] | Some c \<Rightarrow> [f c])"
  using assms
proof (induction cs)
  case Nil
  then show ?case by simp
next
  case (Cons a cs)
  show ?case
  proof (cases "k = IntKey (c_id a)")
    case True
    with Cons.prems have "\<forall>c\<in>set cs. k \<noteq> IntKey (c_id c)" by auto
    from join_none [OF this] True show ?thesis by simp
  next
    case False
    with Cons show ?thesis by simp
  qed
qed

lemma join_outer:
  "concat (map (\<lambda>r. case g r of None \<Rightarrow> [] | Some c \<Rightarrow> [h r c]) rs) =
   map (\<lambda>r. case g r of None \<Rightarrow> d r | Some c \<Rightarrow> h r c) (filter (\<lambda>r. g r \<noteq> None) rs)"
  by (induction rs) (auto split: option.splits)

lemma client_of_None: "client_of s k = None \<longleftrightarrow> (\<forall>c\<in>set (clients s). k \<noteq> IntKey (c_id c))"
  by (auto simp: client_of_def find_None_iff)

lemma readings_join_set:
  "set (readings_join s) =
     {(r_id r, c_name c, r_date r, r_reading r) | r c.
        r \<in> set (readings s) \<and> c \<in> set (clients s) \<and> r_client_id r = IntKey (c_id c)}"
  by (auto simp: readings_join_def)

lemma readings_join_Nil: "readings_join s = [] \<longleftrightarrow> listed_readings s = []"
proof -
  have "readings_join s = [] \<longleftrightarrow> set (readings_join s) = {}" by simp
  also have "\<dots> \<longleftrightarrow> (\<forall>r\<in>set (readings s). \<forall>c\<in>set (clients s). r_client_id r \<noteq> IntKey (c_id c))"
    unfolding readings_join_set by blast
  also have "\<dots> \<longleftrightarrow> (\<forall>r\<in>set (readings s). client_of s (r_client_id r) = None)"
    by (simp add: client_of_None)
  also have "\<dots> \<longleftrightarrow> listed_readings s = []"
    by (simp add: listed_readings_def filter_empty_conv)
  finally show ?thesis .
qed

lemma readings_join_eq:
  assumes "distinct (map c_id (clients s))"
  shows "readings_join s =
         map (\<lambda>r. (r_id r, client_name s (r_client_id r), r_date r, r_reading r))
           (listed_readings s)"
proof -
  have "readings_join s =
        concat (map (\<lambda>r. case client_of s (r_client_id r) of None \<Rightarrow> []
                          | Some c \<Rightarrow> [(r_id r, c_name c, r_date r, r_reading r)]) (readings s))"
    unfolding readings_join_def client_of_def
    by (simp add: join_inner [OF assms])
  also have "\<dots> = map (\<lambda>r. case client_of s (r_client_id r) of
                                None \<Rightarrow> (r_id r, [], r_date r, r_reading r)
                              | Some c \<Rightarrow> (r_id r, c_name c, r_date r, r_reading r))
                     (listed_readings s)"
    unfolding listed_readings_def by (rule join_outer)
  also have "\<dots> = map (\<lambda>r. (r_id r, client_name s (r_client_id r), r_date r, r_reading r))
                     (listed_readings s)"
    by (rule map_cong) (auto simp: client_name_def split: option.splits)
  finally show ?thesis .
qed


text \<open>
  C9, as amended. \<open>view_readings\<close> reports the readings whose client exists, each
  with the name of its client, in ascending order of date: the rows are those of the
  join of the readings with the clients, and with client ids that are distinct, as a
  primary key is, each such reading is there once. A reading whose client does not
  exist is left out. The report is the empty one exactly when no reading has a
  client.
\<close>

theorem view_readings_join:
  "\<exists>rows. view_readings s = (if rows = [] then [NoReadings] else [ReadingList rows]) \<and>
     sorted (map (\<lambda>row. fst (snd (snd row))) rows) \<and>
     set rows =
       {(r_id r, c_name c, r_date r, r_reading r) | r c.
          r \<in> set (readings s) \<and> c \<in> set (clients s) \<and> r_client_id r = IntKey (c_id c)} \<and>
     (rows = [] \<longleftrightarrow> listed_readings s = []) \<and>
     (distinct (map c_id (clients s)) \<longrightarrow>
        mset rows =
          mset (map (\<lambda>r. (r_id r, client_name s (r_client_id r), r_date r, r_reading r))
                  (listed_readings s)))"
proof -
  let ?rows = "sort_key (\<lambda>row. fst (snd (snd row))) (readings_join s)"
  have 1: "view_readings s = (if ?rows = [] then [NoReadings] else [ReadingList ?rows])"
    by (simp add: view_readings_def Let_def)
  have 2: "sorted (map (\<lambda>row. fst (snd (snd row))) ?rows)" by (rule sorted_sort_key)
  have 3: "set ?rows =
       {(r_id r, c_name c, r_date r, r_reading r) | r c.
          r \<in> set (readings s) \<and> c \<in> set (clients s) \<and> r_client_id r = IntKey (c_id c)}"
    by (simp only: set_sort readings_join_set)
  have 4: "?rows = [] \<longleftrightarrow> listed_readings s = []"
    by (simp only: sort_key_Nil_iff readings_join_Nil)
  have 5: "distinct (map c_id (clients s)) \<longrightarrow>
        mset ?rows =
          mset (map (\<lambda>r. (r_id r, client_name s (r_client_id r), r_date r, r_reading r))
                  (listed_readings s))"
    by (simp add: readings_join_eq)
  show ?thesis by (rule exI [of _ ?rows]) (intro conjI 1 2 3 4 5)
qed


















text \<open>
  C9, as stated, fails: of the three readings of the table only two are reported,
  the third belongs to no client.
\<close>

theorem view_readings_join_counterexample:
  "map r_id (readings jan_store) = [1, 2, 3] \<and>
   view_readings jan_store =
     [ReadingList [(2, ascii ''A'', ascii ''2024-01-01'', 100),
                   (1, ascii ''A'', ascii ''2024-01-31'', 135)]]"
  by (simp add: view_readings_def readings_join_def jan_store_def ascii_def)



theorem view_readings_join_witness:
  "distinct (map c_id (clients jan_store)) \<and>
   map r_id (listed_readings jan_store) = [1, 2] \<and>
   (\<exists>rows. view_readings jan_store = (if rows = [] then [NoReadings] else [ReadingList rows]) \<and>
           sorted (map (\<lambda>row. fst (snd (snd row))) rows) \<and>
           mset rows =
             mset (map (\<lambda>r. (r_id r, client_name jan_store (r_client_id r), r_date r, r_reading r))
                     (listed_readings jan_store)))"
proof -
  have h: "distinct (map c_id (clients jan_store))" by (simp add: jan_store_def)
  have l: "map r_id (listed_readings jan_store) = [1, 2]"
    by (simp add: listed_readings_def client_of_def jan_store_def)
  from h l view_readings_join [of jan_store] show ?thesis by blast
qed

end
